theory Spec2Isabelle
  imports Complex_Main
begin

section \<open>Data model (types/game.ts)\<close>

text \<open>
  The closed string unions of the TypeScript source become datatypes. Where two unions
  share a literal (\<open>MEDIUM\<close> is a difficulty and a severity, \<open>completed\<close> a task
  status and an end-of-round reason) the second one carries a prefix.
\<close>

datatype GamePhase = IDLE | LOADING | PLAYING | AUDITING | DEBRIEF

datatype Difficulty = EASY | MEDIUM | HARD

record DifficultyFactors =
  affectsTimer :: bool
  affectsComplexity :: bool
  affectsTaskCount :: bool

datatype Language = javascript | python | java | go | php

datatype VulnerabilityType =
    XSS
  | SQL_INJECTION
  | RCE
  | SSRF
  | PATH_TRAVERSAL
  | COMMAND_INJECTION
  | INSECURE_DESERIALIZATION
  | SAFE

datatype SystemName =
    O2
  | NAVIGATION
  | SHIELDS
  | REACTOR
  | COMMUNICATIONS
  | ELECTRICAL
  | MEDBAY
  | SECURITY
  | WEAPONS
  | ADMIN

datatype TaskStatus = pending | completed | failed | current

datatype Answer = safe | vulnerable

datatype GameOverReason = reason_timeout | reason_wrong_answer | reason_completed

datatype Severity = sev_LOW | sev_MEDIUM | sev_HIGH | sev_CRITICAL

datatype ComplexityLevel = basic | intermediate | advanced

text \<open>
  A task. Optional fields (\<open>vulnerabilityLine?\<close>, \<open>explanation?\<close>, \<open>userAnswer?\<close>)
  are options. \<open>vulnerabilityLine\<close> is a JavaScript number; the model keeps the
  integers, so that the value \<open>0\<close>, which JavaScript treats as false, is present.
\<close>

record Task =
  task_id :: string
  systemName :: SystemName
  code :: string
  task_language :: Language
  isVulnerable :: bool
  vulnerabilityType :: VulnerabilityType
  vulnerabilityLine :: "int option"
  explanation :: "string option"
  status :: TaskStatus
  userAnswer :: "Answer option"

record CodeLocation =
  line :: int
  column :: "int option"

record AuditFinding =
  taskId :: string
  finding_systemName :: SystemName
  vulnerability :: VulnerabilityType
  severity :: Severity
  description :: string
  codeLocation :: CodeLocation
  remediation :: string
  codeSnippet :: "string option"

record AuditReport =
  findings :: "AuditFinding list"
  summary :: string
  audioUrl :: "string option"

text \<open>
  The game state. \<open>currentTaskIndex\<close>, \<open>score\<close> and the two counters start at
  \<open>0\<close> and are only ever incremented or reset to \<open>0\<close>, so they are naturals; the two
  timer fields are integers.
\<close>

record GameState =
  phase :: GamePhase
  difficulty :: Difficulty
  difficultyFactors :: DifficultyFactors
  language :: Language
  tasks :: "Task list"
  currentTaskIndex :: nat
  timePerTask :: int
  timeRemaining :: int
  score :: nat
  totalCorrect :: nat
  totalIncorrect :: nat
  gameOverReason :: "GameOverReason option"
  auditReport :: "AuditReport option"

record GameConfig =
  taskCount :: nat
  config_timePerTask :: int
  complexityLevel :: ComplexityLevel

section \<open>Difficulty config resolver (calculateGameConfig)\<close>

text \<open>
  \<open>[affectsTimer, affectsComplexity, affectsTaskCount].filter(Boolean).length\<close>
\<close>

definition factorCount :: "DifficultyFactors \<Rightarrow> nat" where
  "factorCount factors =
     length (filter (\<lambda>b. b)
       [affectsTimer factors, affectsComplexity factors, affectsTaskCount factors])"

text \<open>
  The time selected by the number of active factors, before the difficulty adjustment:
  the initial value \<open>45\<close> stays when no branch of the \<open>if\<close> chain fires.
\<close>

definition baseTimePerTask :: "DifficultyFactors \<Rightarrow> int" where
  "baseTimePerTask factors =
     (if factorCount factors = 1 then 15
      else if factorCount factors = 2 then 30
      else if factorCount factors = 3 then 45
      else 45)"

text \<open>
  \<open>Math.floor(timePerTask * 1.5)\<close> and \<open>Math.floor(timePerTask * 0.7)\<close>, computed
  over the reals. The source computes in IEEE double precision; on the three values the
  base time can take the double product lies on the same side of every integer as the
  exact one (\<open>15 * 0.7 = 10.5\<close>, \<open>30 * 0.7\<close> rounds to \<open>21\<close>, \<open>45 * 0.7\<close> is just
  below \<open>31.5\<close>; the products with \<open>1.5\<close> are exact), so the floors agree.
\<close>

definition timerAdjust :: "Difficulty \<Rightarrow> int \<Rightarrow> int" where
  "timerAdjust d t =
     (case d of
        EASY \<Rightarrow> \<lfloor>real_of_int t * 1.5\<rfloor>
      | MEDIUM \<Rightarrow> t
      | HARD \<Rightarrow> \<lfloor>real_of_int t * 0.7\<rfloor>)"

text \<open>
  \<open>calculateGameConfig\<close>. The first argument stands for the value of
  \<open>Math.floor(Math.random() * 2)\<close>, the only use the function makes of the random
  source; it reaches \<open>taskCount\<close> alone.
\<close>

definition calculateGameConfig :: "nat \<Rightarrow> Difficulty \<Rightarrow> DifficultyFactors \<Rightarrow> GameConfig" where
  "calculateGameConfig rnd d factors =
     \<lparr> taskCount =
         (if affectsTaskCount factors
          then (case d of EASY \<Rightarrow> 3 + rnd | MEDIUM \<Rightarrow> 5 | HARD \<Rightarrow> 6 + rnd)
          else 5),
       config_timePerTask =
         (if affectsTimer factors
          then timerAdjust d (baseTimePerTask factors)
          else baseTimePerTask factors),
       complexityLevel =
         (if affectsComplexity factors
          then (case d of EASY \<Rightarrow> basic | MEDIUM \<Rightarrow> intermediate | HARD \<Rightarrow> advanced)
          else basic) \<rparr>"

section \<open>Session state machine (hooks/useGameState.ts)\<close>

datatype GameAction =
    START_GAME
  | SET_DIFFICULTY Difficulty DifficultyFactors
  | SET_LANGUAGE Language
  | START_LOADING
  | LOAD_TASKS "Task list"
  | START_PLAYING
  | ANSWER_TASK Answer
  | NEXT_TASK
  | TICK_TIMER
  | TIME_UP
  | GAME_OVER GameOverReason
  | START_AUDITING
  | SET_AUDIT_REPORT AuditReport
  | START_DEBRIEF
  | RESET_GAME

definition initialState :: GameState where
  "initialState =
     \<lparr> phase = IDLE,
       difficulty = MEDIUM,
       difficultyFactors =
         \<lparr> affectsTimer = True, affectsComplexity = True, affectsTaskCount = False \<rparr>,
       language = javascript,
       tasks = [],
       currentTaskIndex = 0,
       timePerTask = 30,
       timeRemaining = 30,
       score = 0,
       totalCorrect = 0,
       totalIncorrect = 0,
       gameOverReason = None,
       auditReport = None \<rparr>"

text \<open>\<open>xs.map((x, index) => f(index, x))\<close>: the callback sees the position.\<close>

primrec map_from :: "nat \<Rightarrow> (nat \<Rightarrow> 'a \<Rightarrow> 'b) \<Rightarrow> 'a list \<Rightarrow> 'b list" where
  "map_from n f [] = []"
| "map_from n f (x # xs) = f n x # map_from (Suc n) f xs"

definition map_index :: "(nat \<Rightarrow> 'a \<Rightarrow> 'b) \<Rightarrow> 'a list \<Rightarrow> 'b list" where
  "map_index f xs = map_from 0 f xs"

text \<open>\<open>state.tasks[i]\<close>: \<open>undefined\<close> (here \<open>None\<close>) outside the array.\<close>

definition task_at :: "Task list \<Rightarrow> nat \<Rightarrow> Task option" where
  "task_at ts i = (if i < length ts then Some (ts ! i) else None)"

definition isCorrect :: "Answer \<Rightarrow> Task \<Rightarrow> bool" where
  "isCorrect userAns t \<longleftrightarrow>
     (userAns = vulnerable \<and> isVulnerable t) \<or> (userAns = safe \<and> \<not> isVulnerable t)"

text \<open>
  The reducer, one equation per \<open>case\<close> of the source's \<open>switch\<close>.
  \<open>SET_DIFFICULTY\<close> reads only \<open>timePerTask\<close> from the resolver's result, which does
  not depend on the random draw (lemma \<open>config_timePerTask_rnd\<close> below).
\<close>

fun gameReducer :: "GameState \<Rightarrow> GameAction \<Rightarrow> GameState" where
  "gameReducer state START_GAME = state\<lparr> phase := IDLE \<rparr>"
| "gameReducer state (SET_DIFFICULTY d factors) =
     (let config = calculateGameConfig 0 d factors
      in state\<lparr> difficulty := d,
                difficultyFactors := factors,
                timePerTask := config_timePerTask config,
                timeRemaining := config_timePerTask config \<rparr>)"
| "gameReducer state (SET_LANGUAGE l) = state\<lparr> language := l \<rparr>"
| "gameReducer state START_LOADING =
     state\<lparr> phase := LOADING,
            tasks := [],
            currentTaskIndex := 0,
            score := 0,
            totalCorrect := 0,
            totalIncorrect := 0,
            gameOverReason := None,
            auditReport := None \<rparr>"
| "gameReducer state (LOAD_TASKS payload) =
     state\<lparr> tasks :=
              map_index (\<lambda>index task.
                task\<lparr> status := (if index = 0 then current else pending) \<rparr>) payload,
            timeRemaining := timePerTask state \<rparr>"
| "gameReducer state START_PLAYING =
     state\<lparr> phase := PLAYING, timeRemaining := timePerTask state \<rparr>"
| "gameReducer state (ANSWER_TASK userAns) =
     (case task_at (tasks state) (currentTaskIndex state) of
        None \<Rightarrow> state
      | Some currentTask \<Rightarrow>
          if userAns = vulnerable \<and> \<not> isVulnerable currentTask then
            state\<lparr> tasks :=
                     map_index (\<lambda>index task.
                       if index = currentTaskIndex state
                       then task\<lparr> status := failed, userAnswer := Some userAns \<rparr>
                       else task) (tasks state),
                   totalIncorrect := totalIncorrect state + 1,
                   gameOverReason := Some reason_wrong_answer,
                   phase := AUDITING \<rparr>
          else
            let updatedTasks =
                  map_index (\<lambda>index task.
                    if index = currentTaskIndex state
                    then task\<lparr> status :=
                                  (if isCorrect userAns currentTask then completed else failed),
                                userAnswer := Some userAns \<rparr>
                    else if index = currentTaskIndex state + 1
                    then task\<lparr> status := current \<rparr>
                    else task) (tasks state);
                newScore =
                  (if isCorrect userAns currentTask then score state + 100 else score state);
                isLastTask =
                  (int (currentTaskIndex state) \<ge> int (length (tasks state)) - 1)
            in if isLastTask then
                 state\<lparr> tasks := updatedTasks,
                        score := newScore,
                        totalCorrect :=
                          (if isCorrect userAns currentTask
                           then totalCorrect state + 1 else totalCorrect state),
                        totalIncorrect :=
                          (if isCorrect userAns currentTask
                           then totalIncorrect state else totalIncorrect state + 1),
                        gameOverReason := Some reason_completed,
                        phase := AUDITING \<rparr>
               else
                 state\<lparr> tasks := updatedTasks,
                        score := newScore,
                        totalCorrect :=
                          (if isCorrect userAns currentTask
                           then totalCorrect state + 1 else totalCorrect state),
                        totalIncorrect :=
                          (if isCorrect userAns currentTask
                           then totalIncorrect state else totalIncorrect state + 1),
                        currentTaskIndex := currentTaskIndex state + 1,
                        timeRemaining := timePerTask state \<rparr>)"
| "gameReducer state NEXT_TASK =
     (let nextIndex = currentTaskIndex state + 1
      in if nextIndex \<ge> length (tasks state) then
           state\<lparr> gameOverReason := Some reason_completed, phase := AUDITING \<rparr>
         else
           state\<lparr> tasks :=
                    map_index (\<lambda>index task.
                      if index = nextIndex then task\<lparr> status := current \<rparr> else task)
                      (tasks state),
                  currentTaskIndex := nextIndex,
                  timeRemaining := timePerTask state \<rparr>)"
| "gameReducer state TICK_TIMER =
     (if timeRemaining state \<le> 1 then state\<lparr> timeRemaining := 0 \<rparr>
      else state\<lparr> timeRemaining := timeRemaining state - 1 \<rparr>)"
| "gameReducer state TIME_UP =
     state\<lparr> tasks :=
              map_index (\<lambda>index task.
                if index = currentTaskIndex state then task\<lparr> status := failed \<rparr> else task)
                (tasks state),
            gameOverReason := Some reason_timeout,
            phase := AUDITING \<rparr>"
| "gameReducer state (GAME_OVER reason) =
     state\<lparr> gameOverReason := Some reason, phase := AUDITING \<rparr>"
| "gameReducer state START_AUDITING = state\<lparr> phase := AUDITING \<rparr>"
| "gameReducer state (SET_AUDIT_REPORT report) = state\<lparr> auditReport := Some report \<rparr>"
| "gameReducer state START_DEBRIEF = state\<lparr> phase := DEBRIEF \<rparr>"
| "gameReducer state RESET_GAME = initialState"

section \<open>Fallback audit (services/hacktron.ts)\<close>

definition REMEDIATIONS :: "VulnerabilityType \<Rightarrow> string" where
  "REMEDIATIONS v =
     (case v of
        XSS \<Rightarrow> ''Use proper output encoding. For HTML context, use textContent instead of innerHTML. Consider using a templating library with auto-escaping.''
      | SQL_INJECTION \<Rightarrow> ''Use parameterized queries or prepared statements. Never concatenate user input directly into SQL queries.''
      | RCE \<Rightarrow> ''Avoid using shell commands with user input. If necessary, use strict input validation and allowlisting.''
      | SSRF \<Rightarrow> ''Validate and sanitize URLs. Use an allowlist of permitted domains. Disable redirects or validate redirect targets.''
      | PATH_TRAVERSAL \<Rightarrow> ''Sanitize file paths using path.basename() or equivalent. Use an allowlist of permitted directories.''
      | COMMAND_INJECTION \<Rightarrow> ''Avoid shell execution. If required, use parameterized commands and strict input validation.''
      | INSECURE_DESERIALIZATION \<Rightarrow> ''Avoid deserializing untrusted data. Use safe serialization formats like JSON. Implement integrity checks.''
      | SAFE \<Rightarrow> ''No remediation needed - this code follows security best practices.'')"

definition SEVERITY_MAP :: "VulnerabilityType \<Rightarrow> Severity" where
  "SEVERITY_MAP v =
     (case v of
        XSS \<Rightarrow> sev_HIGH
      | SQL_INJECTION \<Rightarrow> sev_CRITICAL
      | RCE \<Rightarrow> sev_CRITICAL
      | SSRF \<Rightarrow> sev_HIGH
      | PATH_TRAVERSAL \<Rightarrow> sev_HIGH
      | COMMAND_INJECTION \<Rightarrow> sev_CRITICAL
      | INSECURE_DESERIALIZATION \<Rightarrow> sev_HIGH
      | SAFE \<Rightarrow> sev_LOW)"

definition DESCRIPTIONS :: "VulnerabilityType \<Rightarrow> string" where
  "DESCRIPTIONS v =
     (case v of
        XSS \<Rightarrow> ''Cross-Site Scripting (XSS) vulnerability detected. User input is directly inserted into the DOM without proper sanitization, allowing attackers to inject malicious scripts.''
      | SQL_INJECTION \<Rightarrow> ''SQL Injection vulnerability detected. User input is directly concatenated into SQL queries, allowing attackers to manipulate database operations.''
      | RCE \<Rightarrow> ''Remote Code Execution (RCE) vulnerability detected. User input is passed to system command execution without proper validation.''
      | SSRF \<Rightarrow> ''Server-Side Request Forgery (SSRF) vulnerability detected. The application fetches URLs provided by users without validation, allowing internal network access.''
      | PATH_TRAVERSAL \<Rightarrow> ''Path Traversal vulnerability detected. User input is used in file path construction without proper sanitization, allowing access to arbitrary files.''
      | COMMAND_INJECTION \<Rightarrow> ''Command Injection vulnerability detected. User input is concatenated into shell commands, allowing arbitrary command execution.''
      | INSECURE_DESERIALIZATION \<Rightarrow> ''Insecure Deserialization vulnerability detected. Untrusted data is deserialized without validation, potentially allowing code execution.''
      | SAFE \<Rightarrow> ''This code segment follows security best practices and does not contain obvious vulnerabilities.'')"

text \<open>
  \<open>task.vulnerabilityLine || 1\<close>: the right operand is taken when the left one is
  \<open>undefined\<close> and also when it is the number \<open>0\<close>, which JavaScript treats as false.
\<close>

definition lineOrOne :: "int option \<Rightarrow> int" where
  "lineOrOne l = (case l of None \<Rightarrow> 1 | Some n \<Rightarrow> if n = 0 then 1 else n)"

definition mockFinding :: "Task \<Rightarrow> AuditFinding" where
  "mockFinding task =
     \<lparr> taskId = task_id task,
       finding_systemName = systemName task,
       vulnerability = vulnerabilityType task,
       severity = SEVERITY_MAP (vulnerabilityType task),
       description = DESCRIPTIONS (vulnerabilityType task),
       codeLocation = \<lparr> line = lineOrOne (vulnerabilityLine task), column = Some 1 \<rparr>,
       remediation = REMEDIATIONS (vulnerabilityType task),
       codeSnippet = Some (code task) \<rparr>"

text \<open>The decimal numeral a template literal prints for a non-negative integer.\<close>

definition digit_char :: "nat \<Rightarrow> char" where
  "digit_char d = ''0123456789'' ! d"

fun string_of_nat :: "nat \<Rightarrow> string" where
  "string_of_nat n =
     (if n < 10 then [digit_char n]
      else string_of_nat (n div 10) @ [digit_char (n mod 10)])"

definition mockSummary :: "nat \<Rightarrow> nat \<Rightarrow> nat \<Rightarrow> string" where
  "mockSummary vulnerableCount criticalCount highCount =
     (if vulnerableCount = 0 then
        ''Security scan complete. All analyzed code segments follow security best practices. No vulnerabilities detected.''
      else
        ''Security scan detected '' @ string_of_nat vulnerableCount @ '' vulnerabilit''
          @ (if vulnerableCount = 1 then ''y'' else ''ies'') @ '' across ship systems. ''
        @ (if criticalCount > 0 then
             string_of_nat criticalCount @ '' CRITICAL severity issue''
               @ (if criticalCount = 1 then [] else ''s'') @ '' require immediate attention. ''
           else [])
        @ (if highCount > 0 then
             string_of_nat highCount @ '' HIGH severity issue''
               @ (if highCount = 1 then [] else ''s'') @ '' should be addressed promptly. ''
           else [])
        @ ''Review the detailed findings below for remediation guidance.'')"

text \<open>
  \<open>generateMockAudit\<close>: the report inside the always successful result
  \<open>{success: true, data: {report}}\<close>. The argument is \<open>request.tasks\<close>; the
  request's language is not read.
\<close>

definition generateMockAudit :: "Task list \<Rightarrow> AuditReport" where
  "generateMockAudit request_tasks =
     (let fs = map mockFinding (filter isVulnerable request_tasks);
          vulnerableCount = length fs;
          criticalCount = length (filter (\<lambda>f. severity f = sev_CRITICAL) fs);
          highCount = length (filter (\<lambda>f. severity f = sev_HIGH) fs)
      in \<lparr> findings = fs,
           summary = mockSummary vulnerableCount criticalCount highCount,
           audioUrl = None \<rparr>)"

section \<open>Orchestration (App.tsx)\<close>

text \<open>
  \<open>App.tsx\<close> reads \<open>state.endlessMode\<close>; the flag is an argument of the functions
  below. Handlers run against the state captured when they were created, so the state
  argument is the one before any action of the handler is dispatched.
\<close>

definition tasksToAudit :: "bool \<Rightarrow> Task list \<Rightarrow> Task list" where
  "tasksToAudit endlessMode ts =
     (if endlessMode then filter (\<lambda>t. status t = failed) ts
      else filter (\<lambda>t. status t = failed \<or> (isVulnerable t \<and> status t \<noteq> completed)) ts)"

record GenerateSnippetsRequest =
  req_language :: Language
  req_difficulty :: Difficulty
  req_complexityLevel :: ComplexityLevel
  req_count :: nat

text \<open>
  \<open>generateEndlessBatch\<close>: the request handed to the snippet generator. Only
  \<open>complexityLevel\<close> is read from the resolver's result, and it does not depend on the
  random draw.
\<close>

definition generateEndlessBatch ::
  "Difficulty \<Rightarrow> DifficultyFactors \<Rightarrow> Language \<Rightarrow> GenerateSnippetsRequest" where
  "generateEndlessBatch stage factors l =
     (let config = calculateGameConfig 0 stage factors
      in \<lparr> req_language = l,
           req_difficulty = stage,
           req_complexityLevel = complexityLevel config,
           req_count = 5 \<rparr>)"

definition nextStage :: "Difficulty \<Rightarrow> Difficulty" where
  "nextStage endlessStage =
     (if endlessStage = EASY then MEDIUM
      else if endlessStage = MEDIUM then HARD
      else HARD)"

datatype Sound = siren | success | warning

text \<open>
  What one call of \<open>handleAnswer\<close> does: the actions it dispatches, in order, the sounds
  it plays, whether it raises the emergency overlay, the endless stage it leaves, and
  the batch it requests from the generator, if any.
\<close>

record AnswerEffects =
  dispatched :: "GameAction list"
  played :: "Sound list"
  showEmergency :: bool
  endlessStageAfter :: Difficulty
  batchRequested :: "GenerateSnippetsRequest option"

definition handleAnswer :: "bool \<Rightarrow> Difficulty \<Rightarrow> GameState \<Rightarrow> Answer \<Rightarrow> AnswerEffects" where
  "handleAnswer endlessMode endlessStage state answer =
     (case task_at (tasks state) (currentTaskIndex state) of
        None \<Rightarrow>
          \<lparr> dispatched = [], played = [], showEmergency = False,
            endlessStageAfter = endlessStage, batchRequested = None \<rparr>
      | Some currentTask \<Rightarrow>
          if endlessMode \<and> \<not> isCorrect answer currentTask then
            \<lparr> dispatched = [ANSWER_TASK answer, GAME_OVER reason_wrong_answer],
              played = [siren], showEmergency = True,
              endlessStageAfter = endlessStage, batchRequested = None \<rparr>
          else
            let isLastTask =
                  (int (currentTaskIndex state) \<ge> int (length (tasks state)) - 1);
                previousFailed =
                  list_ex (\<lambda>b. b)
                    (map_index (\<lambda>idx task. idx \<noteq> currentTaskIndex state \<and> status task = failed)
                       (tasks state));
                sound = (if isCorrect answer currentTask then success else warning)
            in if endlessMode \<and> isLastTask \<and> isCorrect answer currentTask \<and> \<not> previousFailed
               then
                 \<lparr> dispatched = [ANSWER_TASK answer, START_LOADING],
                   played = [sound], showEmergency = False,
                   endlessStageAfter = nextStage endlessStage,
                   batchRequested =
                     Some (generateEndlessBatch (nextStage endlessStage)
                             (difficultyFactors state) (language state)) \<rparr>
               else
                 \<lparr> dispatched = [ANSWER_TASK answer],
                   played = [sound], showEmergency = isLastTask,
                   endlessStageAfter = endlessStage, batchRequested = None \<rparr>)"

text \<open>
  The generator's answer to an endless batch request: on success the batch is installed
  and the round resumes, on failure the game is reset.
\<close>

definition endlessBatchResolved :: "Task list option \<Rightarrow> GameAction list" where
  "endlessBatchResolved result =
     (case result of
        Some batch \<Rightarrow> [LOAD_TASKS batch, START_PLAYING]
      | None \<Rightarrow> [RESET_GAME])"

text \<open>Dispatching a list of actions folds the reducer over it.\<close>

definition dispatch_all :: "GameState \<Rightarrow> GameAction list \<Rightarrow> GameState" where
  "dispatch_all s acts = foldl gameReducer s acts"

section \<open>Derived notions used by the properties\<close>

text \<open>The number of tasks whose status is \<open>completed\<close> or \<open>failed\<close>.\<close>

definition settled :: "Task \<Rightarrow> bool" where
  "settled t \<longleftrightarrow> status t = completed \<or> status t = failed"

definition settled_count :: "Task list \<Rightarrow> nat" where
  "settled_count ts = length (filter settled ts)"

text \<open>
  The order in which \<open>App.tsx\<close> dispatches: a batch is installed and play starts only
  while \<open>LOADING\<close>; answers are submitted, and the timer-expired action is
  dispatched, only while \<open>PLAYING\<close>.
\<close>

fun dispatchable :: "GameState \<Rightarrow> GameAction \<Rightarrow> bool" where
  "dispatchable s (LOAD_TASKS payload) = (phase s = LOADING)"
| "dispatchable s START_PLAYING = (phase s = LOADING)"
| "dispatchable s (ANSWER_TASK a) = (phase s = PLAYING)"
| "dispatchable s NEXT_TASK = (phase s = PLAYING)"
| "dispatchable s TIME_UP = (phase s = PLAYING)"
| "dispatchable s a = True"

fun ordered_run :: "GameState \<Rightarrow> GameAction list \<Rightarrow> GameState option" where
  "ordered_run s [] = Some s"
| "ordered_run s (a # acts) =
     (if dispatchable s a then ordered_run (gameReducer s a) acts else None)"

text \<open>Tasks used in the examples below.\<close>

definition sqlTask :: Task where
  "sqlTask =
     \<lparr> task_id = ''task-1'', systemName = REACTOR, code = ''db.query(q + id)'',
       task_language = javascript, isVulnerable = True,
       vulnerabilityType = SQL_INJECTION, vulnerabilityLine = Some 1,
       explanation = None, status = pending, userAnswer = None \<rparr>"

definition safeTask :: Task where
  "safeTask =
     \<lparr> task_id = ''task-2'', systemName = O2, code = ''el.textContent = name'',
       task_language = javascript, isVulnerable = False,
       vulnerabilityType = SAFE, vulnerabilityLine = None,
       explanation = None, status = pending, userAnswer = None \<rparr>"

text \<open>
  A task flagged vulnerable whose type is \<open>SAFE\<close> and whose recorded line is
  \<open>0\<close>: well-formed for the \<open>Task\<close> type; its severity is \<open>LOW\<close>.
\<close>

definition lowTask :: Task where
  "lowTask =
     \<lparr> task_id = ''task-3'', systemName = ADMIN, code = ''log(msg)'',
       task_language = javascript, isVulnerable = True,
       vulnerabilityType = SAFE, vulnerabilityLine = Some 0,
       explanation = None, status = pending, userAnswer = None \<rparr>"

text \<open>A state in play: the initial state with a batch installed and an index chosen.\<close>

definition playingState :: "Task list \<Rightarrow> nat \<Rightarrow> GameState" where
  "playingState ts i = initialState\<lparr> phase := PLAYING, tasks := ts, currentTaskIndex := i \<rparr>"

text \<open>
  The factor the specification gives for the timer adjustment: \<open>1.5\<close> for \<open>EASY\<close>,
  \<open>1.0\<close> for \<open>MEDIUM\<close>, \<open>0.7\<close> for \<open>HARD\<close>.
\<close>

definition timerMultiplier :: "Difficulty \<Rightarrow> real" where
  "timerMultiplier d = (case d of EASY \<Rightarrow> 1.5 | MEDIUM \<Rightarrow> 1.0 | HARD \<Rightarrow> 0.7)"

text \<open>
  The invariant of a round played in order: the two counters add up to the number of
  settled tasks; nothing is settled while loading; while playing, no task from the
  current one onwards is settled.
\<close>

definition round_inv :: "GameState \<Rightarrow> bool" where
  "round_inv s \<longleftrightarrow>
     totalCorrect s + totalIncorrect s = settled_count (tasks s)
     \<and> (phase s = LOADING \<longrightarrow> settled_count (tasks s) = 0)
     \<and> (phase s = PLAYING \<longrightarrow>
          (\<forall>i<length (tasks s). currentTaskIndex s \<le> i \<longrightarrow> \<not> settled (tasks s ! i)))"

text \<open>
  What holds in every state of a round played in order, timeouts included: the number
  of settled tasks is the sum of the two counters or one more, and the invariant above
  holds while loading and while playing.
\<close>

definition round_bounds :: "GameState \<Rightarrow> bool" where
  "round_bounds s \<longleftrightarrow>
     totalCorrect s + totalIncorrect s \<le> settled_count (tasks s)
     \<and> settled_count (tasks s) \<le> totalCorrect s + totalIncorrect s + 1
     \<and> (phase s = LOADING \<or> phase s = PLAYING \<longrightarrow> round_inv s)"

section \<open>Basic facts\<close>

lemma length_map_from: "length (map_from n f xs) = length xs"
  by (induction xs arbitrary: n) simp_all

lemma nth_map_from: "i < length xs \<Longrightarrow> map_from n f xs ! i = f (n + i) (xs ! i)"
proof (induction xs arbitrary: n i)
  case Nil
  then show ?case by simp
next
  case (Cons x xs)
  then show ?case by (cases i) simp_all
qed

lemma length_map_index: "length (map_index f xs) = length xs"
  by (simp add: map_index_def length_map_from)

lemma nth_map_index: "i < length xs \<Longrightarrow> map_index f xs ! i = f i (xs ! i)"
  by (simp add: map_index_def nth_map_from)

lemma task_at_Some: "task_at ts i = Some t \<longleftrightarrow> i < length ts \<and> ts ! i = t"
  by (auto simp: task_at_def)

lemma task_at_None: "task_at ts i = None \<longleftrightarrow> length ts \<le> i"
  by (auto simp: task_at_def)

lemmas example_defs =
  dispatch_all_def initialState_def map_index_def task_at_def sqlTask_def safeTask_def
  isCorrect_def Let_def settled_count_def settled_def

section \<open>Facts about the resolver and single reducer steps\<close>

lemma config_timePerTask_rnd:
  "config_timePerTask (calculateGameConfig r d f) = config_timePerTask (calculateGameConfig 0 d f)"
  by (simp add: calculateGameConfig_def)

lemma complexityLevel_rnd:
  "complexityLevel (calculateGameConfig r d f) = complexityLevel (calculateGameConfig 0 d f)"
  by (simp add: calculateGameConfig_def)

lemma timerAdjust_values:
  "timerAdjust EASY 15 = 22" "timerAdjust EASY 30 = 45" "timerAdjust EASY 45 = 67"
  "timerAdjust HARD 15 = 10" "timerAdjust HARD 30 = 21" "timerAdjust HARD 45 = 31"
  by (simp_all add: timerAdjust_def)

lemma baseTimePerTask_cases: "baseTimePerTask f \<in> {15, 30, 45}"
  by (simp add: baseTimePerTask_def)

lemma config_timePerTask_pos: "0 < config_timePerTask (calculateGameConfig r d f)"
  using baseTimePerTask_cases[of f]
  by (cases d) (auto simp: calculateGameConfig_def timerAdjust_values timerAdjust_def)

lemma score_inv_step:
  "score s = 100 * totalCorrect s \<Longrightarrow> score (gameReducer s a) = 100 * totalCorrect (gameReducer s a)"
  by (cases a) (auto simp: Let_def initialState_def split: option.splits)

lemma score_mono_step:
  "a \<noteq> START_LOADING \<Longrightarrow> a \<noteq> RESET_GAME \<Longrightarrow> score s \<le> score (gameReducer s a)"
  by (cases a) (auto simp: Let_def split: option.splits)

lemma answer_correct_step:
  "task_at (tasks s) (currentTaskIndex s) = Some t \<Longrightarrow> isCorrect ans t \<Longrightarrow>
   score (gameReducer s (ANSWER_TASK ans)) = score s + 100
   \<and> totalCorrect (gameReducer s (ANSWER_TASK ans)) = totalCorrect s + 1
   \<and> totalIncorrect (gameReducer s (ANSWER_TASK ans)) = totalIncorrect s"
  by (auto simp: Let_def isCorrect_def)

lemma answer_incorrect_step:
  "task_at (tasks s) (currentTaskIndex s) = Some t \<Longrightarrow> \<not> isCorrect ans t \<Longrightarrow>
   score (gameReducer s (ANSWER_TASK ans)) = score s
   \<and> totalCorrect (gameReducer s (ANSWER_TASK ans)) = totalCorrect s
   \<and> totalIncorrect (gameReducer s (ANSWER_TASK ans)) = totalIncorrect s + 1"
  by (auto simp: Let_def isCorrect_def)

lemma timer_inv_step:
  "0 \<le> timeRemaining s \<and> timeRemaining s \<le> timePerTask s \<Longrightarrow>
   0 \<le> timeRemaining (gameReducer s a) \<and> timeRemaining (gameReducer s a) \<le> timePerTask (gameReducer s a)"
  using config_timePerTask_pos[of 0]
  by (cases a) (auto simp: Let_def initialState_def less_imp_le split: option.splits)

section \<open>The false accusation ends the round\<close>

text \<open>
  C1. In any state with a task at \<open>currentTaskIndex\<close> that is not vulnerable (the
  reducer does not look at the phase, so in particular in phase \<open>PLAYING\<close>),
  answering \<open>vulnerable\<close> gives a state in phase \<open>AUDITING\<close> with
  \<open>gameOverReason = wrong_answer\<close>, the task at that index \<open>failed\<close>, and
  \<open>totalIncorrect\<close> one higher, whatever the index and however many tasks follow.
\<close>

theorem false_accusation_ends_round:
  assumes "task_at (tasks s) (currentTaskIndex s) = Some t"
    and "\<not> isVulnerable t"
  shows "phase (gameReducer s (ANSWER_TASK vulnerable)) = AUDITING
       \<and> gameOverReason (gameReducer s (ANSWER_TASK vulnerable)) = Some reason_wrong_answer
       \<and> currentTaskIndex (gameReducer s (ANSWER_TASK vulnerable)) = currentTaskIndex s
       \<and> task_at (tasks (gameReducer s (ANSWER_TASK vulnerable))) (currentTaskIndex s)
           = Some (t\<lparr> status := failed, userAnswer := Some vulnerable \<rparr>)
       \<and> status (tasks (gameReducer s (ANSWER_TASK vulnerable)) ! currentTaskIndex s) = failed
       \<and> totalIncorrect (gameReducer s (ANSWER_TASK vulnerable)) = totalIncorrect s + 1"
  using assms
  by (simp add: task_at_def length_map_index nth_map_index split: if_splits)

theorem false_accusation_ends_round_witness:
  "task_at (tasks (playingState [sqlTask, safeTask] 1)) (currentTaskIndex (playingState [sqlTask, safeTask] 1))
      = Some safeTask
   \<and> \<not> isVulnerable safeTask
   \<and> phase (gameReducer (playingState [sqlTask, safeTask] 1) (ANSWER_TASK vulnerable)) = AUDITING
   \<and> gameOverReason (gameReducer (playingState [sqlTask, safeTask] 1) (ANSWER_TASK vulnerable))
       = Some reason_wrong_answer
   \<and> totalIncorrect (gameReducer (playingState [sqlTask, safeTask] 1) (ANSWER_TASK vulnerable)) = 1"
  using false_accusation_ends_round [of "playingState [sqlTask, safeTask] 1" safeTask]
  by (simp add: playingState_def initialState_def task_at_def safeTask_def)

section \<open>Answering when there is no current task\<close>

text \<open>
  C10. When no task exists at \<open>currentTaskIndex\<close> (the list is empty, or the index
  is past its end), the answer action returns the state as it was: no field changes and
  the phase stays.
\<close>

theorem answer_without_task_is_noop:
  "task_at (tasks s) (currentTaskIndex s) = None \<Longrightarrow> gameReducer s (ANSWER_TASK a) = s"
  by simp

theorem answer_without_task_is_noop_witness:
  "task_at (tasks initialState) (currentTaskIndex initialState) = None
   \<and> gameReducer initialState (ANSWER_TASK safe) = initialState
   \<and> task_at (tasks (playingState [sqlTask] 1)) (currentTaskIndex (playingState [sqlTask] 1)) = None
   \<and> gameReducer (playingState [sqlTask] 1) (ANSWER_TASK vulnerable) = playingState [sqlTask] 1"
  using answer_without_task_is_noop [of initialState safe]
    answer_without_task_is_noop [of "playingState [sqlTask] 1" vulnerable]
  by (simp add: playingState_def initialState_def task_at_def)

section \<open>Score and counters\<close>

text \<open>
  C2, as the code has it. \<open>score = 100 * totalCorrect\<close> holds in the initial state
  and is preserved by every action of the reducer. A correct answer adds exactly
  \<open>100\<close> to the score and \<open>1\<close> to \<open>totalCorrect\<close>; an incorrect answer
  changes neither and adds \<open>1\<close> to \<open>totalIncorrect\<close>. The score does not
  decrease under any action other than \<open>START_LOADING\<close> and \<open>RESET_GAME\<close>,
  which set it back to \<open>0\<close>.
\<close>

theorem score_is_100_per_correct_answer:
  "score initialState = 100 * totalCorrect initialState
   \<and> (score s = 100 * totalCorrect s \<longrightarrow>
        score (gameReducer s a) = 100 * totalCorrect (gameReducer s a))
   \<and> (task_at (tasks s) (currentTaskIndex s) = Some t \<and> isCorrect ans t \<longrightarrow>
        score (gameReducer s (ANSWER_TASK ans)) = score s + 100
        \<and> totalCorrect (gameReducer s (ANSWER_TASK ans)) = totalCorrect s + 1
        \<and> totalIncorrect (gameReducer s (ANSWER_TASK ans)) = totalIncorrect s)
   \<and> (task_at (tasks s) (currentTaskIndex s) = Some t \<and> \<not> isCorrect ans t \<longrightarrow>
        score (gameReducer s (ANSWER_TASK ans)) = score s
        \<and> totalCorrect (gameReducer s (ANSWER_TASK ans)) = totalCorrect s
        \<and> totalIncorrect (gameReducer s (ANSWER_TASK ans)) = totalIncorrect s + 1)
   \<and> (a \<noteq> START_LOADING \<and> a \<noteq> RESET_GAME \<longrightarrow> score s \<le> score (gameReducer s a))
   \<and> score (gameReducer s START_LOADING) = 0
   \<and> score (gameReducer s RESET_GAME) = 0"
  using score_inv_step [of s a] score_mono_step [of a s]
    answer_correct_step [of s t ans] answer_incorrect_step [of s t ans]
  by (simp add: initialState_def)

theorem score_is_100_per_correct_answer_witness:
  "score (playingState [sqlTask, safeTask] 0) = 100 * totalCorrect (playingState [sqlTask, safeTask] 0)
   \<and> task_at (tasks (playingState [sqlTask, safeTask] 0))
        (currentTaskIndex (playingState [sqlTask, safeTask] 0)) = Some sqlTask
   \<and> isCorrect vulnerable sqlTask
   \<and> ANSWER_TASK vulnerable \<noteq> START_LOADING \<and> ANSWER_TASK vulnerable \<noteq> RESET_GAME
   \<and> score (gameReducer (playingState [sqlTask, safeTask] 0) (ANSWER_TASK vulnerable)) = 100
   \<and> totalCorrect (gameReducer (playingState [sqlTask, safeTask] 0) (ANSWER_TASK vulnerable)) = 1
   \<and> \<not> isCorrect safe sqlTask
   \<and> score (gameReducer (playingState [sqlTask, safeTask] 0) (ANSWER_TASK safe)) = 0
   \<and> totalIncorrect (gameReducer (playingState [sqlTask, safeTask] 0) (ANSWER_TASK safe)) = 1"
  using score_is_100_per_correct_answer
          [of "playingState [sqlTask, safeTask] 0" "ANSWER_TASK vulnerable" sqlTask vulnerable]
    score_is_100_per_correct_answer
          [of "playingState [sqlTask, safeTask] 0" "ANSWER_TASK safe" sqlTask safe]
  by (simp add: playingState_def initialState_def task_at_def sqlTask_def isCorrect_def)

text \<open>
  The score does decrease: after one correct answer it is \<open>100\<close>, and starting
  the next round's loading puts it back to \<open>0\<close>.
\<close>

theorem score_reset_counterexample:
  "score (dispatch_all initialState [LOAD_TASKS [safeTask], START_PLAYING, ANSWER_TASK safe]) = 100
   \<and> score (gameReducer
        (dispatch_all initialState [LOAD_TASKS [safeTask], START_PLAYING, ANSWER_TASK safe])
        START_LOADING) = 0"
  by (simp add: dispatch_all_def initialState_def map_index_def task_at_def safeTask_def
        isCorrect_def Let_def)

section \<open>The countdown\<close>

text \<open>
  C9. A timer tick changes \<open>timeRemaining\<close> alone, to one less, floored at
  \<open>0\<close>: a tick at \<open>0\<close> leaves \<open>0\<close> and the result is never negative. The
  bounds \<open>0 \<le> timeRemaining \<le> timePerTask\<close> hold in the initial state and are
  preserved by every action of the reducer.
\<close>

theorem tick_floors_at_zero_and_timer_bounds:
  "gameReducer s TICK_TIMER = s\<lparr> timeRemaining := max 0 (timeRemaining s - 1) \<rparr>
   \<and> (timeRemaining s = 0 \<longrightarrow> timeRemaining (gameReducer s TICK_TIMER) = 0)
   \<and> 0 \<le> timeRemaining (gameReducer s TICK_TIMER)
   \<and> 0 \<le> timeRemaining initialState \<and> timeRemaining initialState \<le> timePerTask initialState
   \<and> (0 \<le> timeRemaining s \<and> timeRemaining s \<le> timePerTask s \<longrightarrow>
        0 \<le> timeRemaining (gameReducer s a)
        \<and> timeRemaining (gameReducer s a) \<le> timePerTask (gameReducer s a))"
  using timer_inv_step [of s a]
  by (simp add: initialState_def max_def)

theorem tick_floors_at_zero_and_timer_bounds_witness:
  "0 \<le> timeRemaining initialState \<and> timeRemaining initialState \<le> timePerTask initialState
   \<and> timeRemaining (gameReducer initialState TICK_TIMER) = 29
   \<and> timeRemaining (initialState\<lparr> timeRemaining := 0 \<rparr>) = 0
   \<and> timeRemaining (gameReducer (initialState\<lparr> timeRemaining := 0 \<rparr>) TICK_TIMER) = 0
   \<and> timeRemaining (gameReducer initialState (SET_DIFFICULTY HARD
          \<lparr> affectsTimer = True, affectsComplexity = False, affectsTaskCount = False \<rparr>)) = 10"
  using tick_floors_at_zero_and_timer_bounds [of initialState TICK_TIMER]
    tick_floors_at_zero_and_timer_bounds [of "initialState\<lparr> timeRemaining := 0 \<rparr>" TICK_TIMER]
  by (simp add: initialState_def calculateGameConfig_def baseTimePerTask_def factorCount_def
        timerAdjust_def)

section \<open>The resolver's time budget\<close>

text \<open>
  C7. For every difficulty and every factor selection with \<open>k = 1, 2, 3\<close> active
  factors the time before the difficulty adjustment is \<open>15 * k\<close>, that is 15, 30,
  45 seconds. Without \<open>affectsTimer\<close> that is the result; with it the result is the
  floor of that time multiplied by 1.5 (\<open>EASY\<close>), 1.0 (\<open>MEDIUM\<close>) or 0.7
  (\<open>HARD\<close>). For \<open>HARD\<close> with the timer factor alone the result is
  \<open>floor (15 * 0.7) = 10\<close>.
\<close>

theorem config_time_by_factor_count:
  assumes "factorCount f = k" and "k = 1 \<or> k = 2 \<or> k = 3"
  shows "baseTimePerTask f = 15 * int k
       \<and> (\<not> affectsTimer f \<longrightarrow>
            config_timePerTask (calculateGameConfig r d f) = 15 * int k)
       \<and> (affectsTimer f \<longrightarrow>
            config_timePerTask (calculateGameConfig r d f)
              = \<lfloor>real_of_int (15 * int k) * timerMultiplier d\<rfloor>)
       \<and> config_timePerTask (calculateGameConfig r HARD
            \<lparr> affectsTimer = True, affectsComplexity = False, affectsTaskCount = False \<rparr>) = 10"
proof -
  have base: "baseTimePerTask f = 15 * int k"
    using assms by (auto simp: baseTimePerTask_def)
  have adj: "timerAdjust d t = \<lfloor>real_of_int t * timerMultiplier d\<rfloor>" for t
    by (cases d) (simp_all add: timerAdjust_def timerMultiplier_def)
  have hard: "config_timePerTask (calculateGameConfig r HARD
            \<lparr> affectsTimer = True, affectsComplexity = False, affectsTaskCount = False \<rparr>) = 10"
    by (simp add: calculateGameConfig_def baseTimePerTask_def factorCount_def timerAdjust_def)
  show ?thesis
    using base hard by (simp add: calculateGameConfig_def adj)
qed

theorem config_time_by_factor_count_witness:
  "factorCount \<lparr> affectsTimer = True, affectsComplexity = True, affectsTaskCount = False \<rparr> = 2
   \<and> ((2::nat) = 1 \<or> (2::nat) = 2 \<or> (2::nat) = 3)
   \<and> affectsTimer \<lparr> affectsTimer = True, affectsComplexity = True, affectsTaskCount = False \<rparr>
   \<and> baseTimePerTask \<lparr> affectsTimer = True, affectsComplexity = True, affectsTaskCount = False \<rparr> = 30
   \<and> config_timePerTask (calculateGameConfig 1 HARD
        \<lparr> affectsTimer = True, affectsComplexity = True, affectsTaskCount = False \<rparr>) = 21
   \<and> config_timePerTask (calculateGameConfig 1 EASY
        \<lparr> affectsTimer = True, affectsComplexity = True, affectsTaskCount = False \<rparr>) = 45"
proof -
  have fc: "factorCount \<lparr> affectsTimer = True, affectsComplexity = True, affectsTaskCount = False \<rparr> = 2"
    by (simp add: factorCount_def)
  have k: "(2::nat) = 1 \<or> (2::nat) = 2 \<or> (2::nat) = 3" by simp
  show ?thesis
    using fc config_time_by_factor_count [OF fc k, of 1 HARD]
      config_time_by_factor_count [OF fc k, of 1 EASY]
    by (simp add: timerMultiplier_def)
qed

section \<open>Counters and settled tasks\<close>

lemma map_index_one:
  "map_index (\<lambda>i t. if i = k then g t else t) ts = ts[k := g (ts ! k)]"
  by (rule nth_equalityI) (simp_all add: length_map_index nth_map_index nth_list_update)

lemma map_index_two:
  "map_index (\<lambda>i t. if i = k then g t else if i = k + 1 then h t else t) ts
     = (ts[k := g (ts ! k)])[k + 1 := h (ts ! (k + 1))]"
  by (rule nth_equalityI) (simp_all add: length_map_index nth_map_index nth_list_update)

lemma settled_count_le: "settled_count ts \<le> length ts"
  by (simp add: settled_count_def)

lemma settled_count_update:
  "i < length ts \<Longrightarrow>
   settled_count (ts[i := t]) + (if settled (ts ! i) then 1 else 0)
     = settled_count ts + (if settled t then 1 else 0)"
proof (induction ts arbitrary: i)
  case Nil
  then show ?case by simp
next
  case (Cons x xs)
  show ?case
  proof (cases i)
    case 0
    then show ?thesis by (simp add: settled_count_def)
  next
    case (Suc j)
    with Cons.prems have "j < length xs" by simp
    from Cons.IH [OF this] Suc show ?thesis
      by (simp add: settled_count_def)
  qed
qed

lemma settled_count_zero:
  "settled_count ts = 0 \<longleftrightarrow> (\<forall>i<length ts. \<not> settled (ts ! i))"
  by (simp add: settled_count_def filter_empty_conv all_set_conv_all_nth)

lemma settled_count_loaded:
  "settled_count (map_index (\<lambda>index task.
      task\<lparr> status := (if index = 0 then current else pending) \<rparr>) payload) = 0"
  by (simp add: settled_count_zero length_map_index nth_map_index settled_def)

lemma round_inv_answer:
  assumes inv: "round_inv s" and ph: "phase s = PLAYING"
  shows "round_inv (gameReducer s (ANSWER_TASK a))"
proof (cases "task_at (tasks s) (currentTaskIndex s)")
  case None
  then show ?thesis using inv by simp
next
  case (Some t)
  then have lt: "currentTaskIndex s < length (tasks s)" and t: "tasks s ! currentTaskIndex s = t"
    by (simp_all add: task_at_Some)
  from inv ph have fresh: "\<And>i. i < length (tasks s) \<Longrightarrow> currentTaskIndex s \<le> i \<Longrightarrow> \<not> settled (tasks s ! i)"
    by (simp add: round_inv_def)
  from inv have sum: "totalCorrect s + totalIncorrect s = settled_count (tasks s)"
    by (simp add: round_inv_def)
  have cur: "\<not> settled (tasks s ! currentTaskIndex s)"
    using fresh lt by simp
  have one: "settled t' \<Longrightarrow>
      settled_count ((tasks s)[currentTaskIndex s := t']) = settled_count (tasks s) + 1" for t'
    using settled_count_update [OF lt, of t'] cur by simp
  have two: "settled t' \<Longrightarrow> \<not> settled t'' \<Longrightarrow>
      settled_count ((tasks s)[currentTaskIndex s := t', currentTaskIndex s + 1 := t''])
        = settled_count (tasks s) + 1" for t' t''
  proof (cases "currentTaskIndex s + 1 < length (tasks s)")
    case True
    assume a: "settled t'" "\<not> settled t''"
    have "\<not> settled (((tasks s)[currentTaskIndex s := t']) ! (currentTaskIndex s + 1))"
      using fresh [of "currentTaskIndex s + 1"] True by simp
    with settled_count_update [of "currentTaskIndex s + 1" "(tasks s)[currentTaskIndex s := t']" t''] True a
    show ?thesis using one [OF a(1)] by simp
  next
    case False
    assume a: "settled t'" "\<not> settled t''"
    from False have "(tasks s)[currentTaskIndex s := t', currentTaskIndex s + 1 := t'']
        = (tasks s)[currentTaskIndex s := t']"
      by (simp add: list_update_beyond)
    then show ?thesis using one [OF a(1)] by simp
  qed
  show ?thesis
  proof (cases "a = vulnerable \<and> \<not> isVulnerable t")
    case True
    then show ?thesis
      using Some sum one [of "t\<lparr> status := failed, userAnswer := Some a \<rparr>"] t
      by (simp add: round_inv_def map_index_one settled_def)
  next
    case False
    let ?t' = "t\<lparr> status := (if isCorrect a t then completed else failed), userAnswer := Some a \<rparr>"
    let ?t'' = "(tasks s ! (currentTaskIndex s + 1))\<lparr> status := current \<rparr>"
    have s1: "settled ?t'" by (simp add: settled_def)
    have s2: "\<not> settled ?t''" by (simp add: settled_def)
    have cnt: "settled_count ((tasks s)[currentTaskIndex s := ?t', currentTaskIndex s + 1 := ?t''])
        = settled_count (tasks s) + 1"
      using two [OF s1 s2] .
    show ?thesis
    proof (cases "int (currentTaskIndex s) \<ge> int (length (tasks s)) - 1")
      case True
      then show ?thesis
        using Some sum cnt t
        by (simp add: round_inv_def map_index_two Let_def if_not_P [OF False])
    next
      case last: False
      have "\<forall>i<length (tasks s). currentTaskIndex s + 1 \<le> i \<longrightarrow>
          \<not> settled ((tasks s)[currentTaskIndex s := ?t', currentTaskIndex s + 1 := ?t''] ! i)"
        using fresh s2 by (auto simp: nth_list_update)
      then show ?thesis
        using Some last sum cnt t ph
        by (simp add: round_inv_def map_index_two Let_def if_not_P [OF False])
    qed
  qed
qed

lemma round_inv_next:
  assumes inv: "round_inv s" and ph: "phase s = PLAYING"
  shows "round_inv (gameReducer s NEXT_TASK)"
proof (cases "currentTaskIndex s + 1 \<ge> length (tasks s)")
  case True
  then show ?thesis using inv by (simp add: round_inv_def)
next
  case False
  then have lt: "currentTaskIndex s + 1 < length (tasks s)" by simp
  from inv ph have fresh: "\<And>i. i < length (tasks s) \<Longrightarrow> currentTaskIndex s \<le> i \<Longrightarrow> \<not> settled (tasks s ! i)"
    by (simp add: round_inv_def)
  let ?t = "(tasks s ! (currentTaskIndex s + 1))\<lparr> status := current \<rparr>"
  have ns: "\<not> settled ?t" by (simp add: settled_def)
  have cnt: "settled_count ((tasks s)[currentTaskIndex s + 1 := ?t]) = settled_count (tasks s)"
    using settled_count_update [OF lt, of ?t] fresh [OF lt] ns by simp
  have "\<forall>i<length (tasks s). currentTaskIndex s + 1 \<le> i \<longrightarrow>
          \<not> settled ((tasks s)[currentTaskIndex s + 1 := ?t] ! i)"
    using fresh ns by (auto simp: nth_list_update)
  then show ?thesis
    using inv False cnt
    by (simp add: round_inv_def map_index_one Let_def)
qed

lemma round_inv_step:
  assumes "round_inv s" and "dispatchable s a" and "a \<noteq> TIME_UP"
  shows "round_inv (gameReducer s a)"
proof (cases a)
  case (ANSWER_TASK x)
  then show ?thesis using assms round_inv_answer by simp
next
  case NEXT_TASK
  then show ?thesis using assms round_inv_next by simp
next
  case (LOAD_TASKS p)
  then show ?thesis using assms by (simp add: round_inv_def settled_count_loaded)
next
  case START_PLAYING
  then show ?thesis using assms by (simp add: round_inv_def settled_count_zero)
next
  case RESET_GAME
  then show ?thesis by (simp add: round_inv_def initialState_def settled_count_def)
next
  case START_LOADING
  then show ?thesis by (simp add: round_inv_def settled_count_def)
qed (use assms in \<open>simp_all add: round_inv_def Let_def\<close>)

lemma round_inv_run:
  "round_inv s \<Longrightarrow> TIME_UP \<notin> set acts \<Longrightarrow> ordered_run s acts = Some s' \<Longrightarrow> round_inv s'"
proof (induction acts arbitrary: s)
  case Nil
  then show ?case by simp
next
  case (Cons a acts)
  then show ?case by (auto split: if_splits intro: round_inv_step)
qed

lemma round_inv_initial: "round_inv initialState"
  by (simp add: round_inv_def initialState_def settled_count_def)

lemma round_inv_imp_bounds: "round_inv s \<Longrightarrow> round_bounds s"
  by (simp add: round_bounds_def round_inv_def)

lemma round_bounds_time_up:
  assumes inv: "round_inv s" and ph: "phase s = PLAYING"
  shows "round_bounds (gameReducer s TIME_UP)"
proof (cases "currentTaskIndex s < length (tasks s)")
  case True
  from inv ph have "\<not> settled (tasks s ! currentTaskIndex s)"
    using True by (simp add: round_inv_def)
  moreover have "settled ((tasks s ! currentTaskIndex s)\<lparr> status := failed \<rparr>)"
    by (simp add: settled_def)
  ultimately have "settled_count
      ((tasks s)[currentTaskIndex s := (tasks s ! currentTaskIndex s)\<lparr> status := failed \<rparr>])
      = settled_count (tasks s) + 1"
    using settled_count_update [OF True,
        of "(tasks s ! currentTaskIndex s)\<lparr> status := failed \<rparr>"]
    by simp
  then show ?thesis
    using inv by (simp add: round_bounds_def round_inv_def map_index_one)
next
  case False
  then have "(tasks s)[currentTaskIndex s := (tasks s ! currentTaskIndex s)\<lparr> status := failed \<rparr>]
      = tasks s"
    by (simp add: list_update_beyond)
  then show ?thesis
    using inv by (simp add: round_bounds_def round_inv_def map_index_one)
qed

lemma round_bounds_step:
  assumes "round_bounds s" and "dispatchable s a"
  shows "round_bounds (gameReducer s a)"
proof (cases a)
  case (ANSWER_TASK x)
  with assms have "round_inv s" by (simp add: round_bounds_def)
  from round_inv_step [OF this assms(2)] ANSWER_TASK show ?thesis
    by (simp add: round_inv_imp_bounds del: gameReducer.simps)
next
  case NEXT_TASK
  with assms have "round_inv s" by (simp add: round_bounds_def)
  from round_inv_step [OF this assms(2)] NEXT_TASK show ?thesis
    by (simp add: round_inv_imp_bounds del: gameReducer.simps)
next
  case (LOAD_TASKS p)
  with assms have "round_inv s" by (simp add: round_bounds_def)
  from round_inv_step [OF this assms(2)] LOAD_TASKS show ?thesis
    by (simp add: round_inv_imp_bounds del: gameReducer.simps)
next
  case START_PLAYING
  with assms have "round_inv s" by (simp add: round_bounds_def)
  from round_inv_step [OF this assms(2)] START_PLAYING show ?thesis
    by (simp add: round_inv_imp_bounds del: gameReducer.simps)
next
  case TIME_UP
  with assms have "round_inv s" and "phase s = PLAYING" by (simp_all add: round_bounds_def)
  then show ?thesis using TIME_UP round_bounds_time_up by simp
next
  case RESET_GAME
  then show ?thesis
    by (simp add: round_bounds_def round_inv_def initialState_def settled_count_def)
next
  case START_LOADING
  then show ?thesis by (simp add: round_bounds_def round_inv_def settled_count_def)
qed (use assms in \<open>simp_all add: round_bounds_def round_inv_def Let_def\<close>)

lemma round_bounds_run:
  "round_bounds s \<Longrightarrow> ordered_run s acts = Some s' \<Longrightarrow> round_bounds s'"
proof (induction acts arbitrary: s)
  case Nil
  then show ?case by simp
next
  case (Cons a acts)
  then show ?case by (auto split: if_splits intro: round_bounds_step)
qed

text \<open>
  C3, as the code has it. In every state reached from the initial state by actions
  dispatched in order (a batch is installed and play started only in phase
  \<open>LOADING\<close>; answers, task advances and the timer-expired action happen only in
  phase \<open>PLAYING\<close>), \<open>totalCorrect + totalIncorrect\<close> is at most the number of
  tasks, and the number of tasks whose status is \<open>completed\<close> or \<open>failed\<close> is that
  sum or one more. The two are equal while the phase is \<open>LOADING\<close> or \<open>PLAYING\<close>,
  and in every state reached without the timer-expired action.
\<close>

theorem counters_match_settled_tasks:
  assumes "ordered_run initialState acts = Some s"
  shows "totalCorrect s + totalIncorrect s \<le> length (tasks s)
       \<and> totalCorrect s + totalIncorrect s \<le> settled_count (tasks s)
       \<and> settled_count (tasks s) \<le> totalCorrect s + totalIncorrect s + 1
       \<and> (phase s = LOADING \<or> phase s = PLAYING \<longrightarrow>
            totalCorrect s + totalIncorrect s = settled_count (tasks s))
       \<and> (TIME_UP \<notin> set acts \<longrightarrow>
            totalCorrect s + totalIncorrect s = settled_count (tasks s))"
proof -
  have b: "round_bounds s"
    using round_bounds_run [OF round_inv_imp_bounds [OF round_inv_initial] assms] .
  have e: "TIME_UP \<notin> set acts \<Longrightarrow> round_inv s"
    using round_inv_run [OF round_inv_initial _ assms] .
  show ?thesis
    using b e settled_count_le [of "tasks s"]
    by (auto simp: round_bounds_def round_inv_def)
qed

theorem counters_match_settled_tasks_witness:
  "ordered_run initialState
      [START_LOADING, LOAD_TASKS [sqlTask, safeTask], START_PLAYING,
       ANSWER_TASK vulnerable, ANSWER_TASK safe]
     = Some (dispatch_all initialState
      [START_LOADING, LOAD_TASKS [sqlTask, safeTask], START_PLAYING,
       ANSWER_TASK vulnerable, ANSWER_TASK safe])
   \<and> TIME_UP \<notin> set [START_LOADING, LOAD_TASKS [sqlTask, safeTask], START_PLAYING,
       ANSWER_TASK vulnerable, ANSWER_TASK safe]
   \<and> totalCorrect (dispatch_all initialState
      [START_LOADING, LOAD_TASKS [sqlTask, safeTask], START_PLAYING,
       ANSWER_TASK vulnerable, ANSWER_TASK safe])
     + totalIncorrect (dispatch_all initialState
      [START_LOADING, LOAD_TASKS [sqlTask, safeTask], START_PLAYING,
       ANSWER_TASK vulnerable, ANSWER_TASK safe])
     = settled_count (tasks (dispatch_all initialState
      [START_LOADING, LOAD_TASKS [sqlTask, safeTask], START_PLAYING,
       ANSWER_TASK vulnerable, ANSWER_TASK safe]))
   \<and> totalCorrect (dispatch_all initialState
      [START_LOADING, LOAD_TASKS [sqlTask, safeTask], START_PLAYING,
       ANSWER_TASK vulnerable, ANSWER_TASK safe]) = 2
   \<and> ordered_run initialState
      [START_LOADING, LOAD_TASKS [sqlTask, safeTask], START_PLAYING,
       ANSWER_TASK vulnerable, TIME_UP]
     = Some (dispatch_all initialState
      [START_LOADING, LOAD_TASKS [sqlTask, safeTask], START_PLAYING,
       ANSWER_TASK vulnerable, TIME_UP])
   \<and> settled_count (tasks (dispatch_all initialState
      [START_LOADING, LOAD_TASKS [sqlTask, safeTask], START_PLAYING,
       ANSWER_TASK vulnerable, TIME_UP]))
     \<le> totalCorrect (dispatch_all initialState
      [START_LOADING, LOAD_TASKS [sqlTask, safeTask], START_PLAYING,
       ANSWER_TASK vulnerable, TIME_UP])
     + totalIncorrect (dispatch_all initialState
      [START_LOADING, LOAD_TASKS [sqlTask, safeTask], START_PLAYING,
       ANSWER_TASK vulnerable, TIME_UP]) + 1
   \<and> settled_count (tasks (dispatch_all initialState
      [START_LOADING, LOAD_TASKS [sqlTask, safeTask], START_PLAYING,
       ANSWER_TASK vulnerable, TIME_UP])) = 2"
proof -
  let ?acts = "[START_LOADING, LOAD_TASKS [sqlTask, safeTask], START_PLAYING,
       ANSWER_TASK vulnerable, ANSWER_TASK safe]"
  let ?late = "[START_LOADING, LOAD_TASKS [sqlTask, safeTask], START_PLAYING,
       ANSWER_TASK vulnerable, TIME_UP]"
  have run: "ordered_run initialState ?acts = Some (dispatch_all initialState ?acts)"
    by code_simp
  have no_time_up: "TIME_UP \<notin> set ?acts"
    by simp
  have tc: "totalCorrect (dispatch_all initialState ?acts) = 2"
    by code_simp
  have inv: "totalCorrect (dispatch_all initialState ?acts)
      + totalIncorrect (dispatch_all initialState ?acts)
      = settled_count (tasks (dispatch_all initialState ?acts))"
    using counters_match_settled_tasks [OF run] no_time_up by blast
  have run': "ordered_run initialState ?late = Some (dispatch_all initialState ?late)"
    by code_simp
  have sc: "settled_count (tasks (dispatch_all initialState ?late)) = 2"
    by code_simp
  have bound: "settled_count (tasks (dispatch_all initialState ?late))
      \<le> totalCorrect (dispatch_all initialState ?late)
        + totalIncorrect (dispatch_all initialState ?late) + 1"
    using counters_match_settled_tasks [OF run'] by blast
  show ?thesis
    by (rule conjI [OF run conjI [OF no_time_up conjI [OF inv conjI [OF tc
          conjI [OF run' conjI [OF bound sc]]]]]])
qed

text \<open>
  The claim as stated fails twice. After a timeout in an ordered round the current
  task is \<open>failed\<close> while both counters are still \<open>0\<close>, so the equality is
  lost; and the reducer itself does not look at the phase, so out of order the last
  task can be answered twice and counted twice, which breaks the bound.
\<close>

theorem counters_mismatch_counterexample:
  "totalCorrect (dispatch_all initialState
        [START_LOADING, LOAD_TASKS [sqlTask], START_PLAYING, TIME_UP])
     + totalIncorrect (dispatch_all initialState
        [START_LOADING, LOAD_TASKS [sqlTask], START_PLAYING, TIME_UP]) = 0
   \<and> settled_count (tasks (dispatch_all initialState
        [START_LOADING, LOAD_TASKS [sqlTask], START_PLAYING, TIME_UP])) = 1
   \<and> totalCorrect (dispatch_all initialState
        [LOAD_TASKS [safeTask], ANSWER_TASK safe, ANSWER_TASK safe])
     + totalIncorrect (dispatch_all initialState
        [LOAD_TASKS [safeTask], ANSWER_TASK safe, ANSWER_TASK safe]) = 2
   \<and> length (tasks (dispatch_all initialState
        [LOAD_TASKS [safeTask], ANSWER_TASK safe, ANSWER_TASK safe])) = 1"
  by (simp add: example_defs)

section \<open>The fallback summary\<close>

lemma string_of_nat_1: "string_of_nat (Suc 0) = ''1''"
  by (simp add: digit_char_def)

lemma string_of_nat_2: "string_of_nat (Suc (Suc 0)) = ''2''"
  by (simp add: digit_char_def)

text \<open>
  C4. The fallback summary for one \<open>CRITICAL\<close> finding, alone or beside a
  \<open>LOW\<close> one: the count and the noun agree (\<open>1 ... issue\<close>), the verb stays
  \<open>require\<close>. The specification prescribes \<open>requires\<close> for a count of one.
\<close>

theorem mock_summary_singular_critical:
  "summary (generateMockAudit [sqlTask]) =
     ''Security scan detected 1 vulnerability across ship systems. 1 CRITICAL severity issue require immediate attention. Review the detailed findings below for remediation guidance.''
   \<and> summary (generateMockAudit [sqlTask, lowTask]) =
     ''Security scan detected 2 vulnerabilities across ship systems. 1 CRITICAL severity issue require immediate attention. Review the detailed findings below for remediation guidance.''"
  by (simp add: generateMockAudit_def mockFinding_def mockSummary_def SEVERITY_MAP_def
        sqlTask_def lowTask_def Let_def string_of_nat_1 string_of_nat_2
      del: string_of_nat.simps)

section \<open>The tasks handed to the audit\<close>

text \<open>
  C5, as the code has it. With endless mode off the tasks handed to the audit are those
  whose status is \<open>failed\<close> together with the vulnerable ones whose status is not
  \<open>completed\<close>; with endless mode on they are the \<open>failed\<close> ones only.
\<close>

theorem audit_input_by_mode:
  "set (tasksToAudit False ts)
     = {t \<in> set ts. status t = failed} \<union> {t \<in> set ts. isVulnerable t \<and> status t \<noteq> completed}
   \<and> set (tasksToAudit True ts) = {t \<in> set ts. status t = failed}"
  by (auto simp: tasksToAudit_def)

theorem audit_input_by_mode_witness:
  "set (tasksToAudit True [sqlTask, safeTask\<lparr> status := failed \<rparr>])
     = {t \<in> set [sqlTask, safeTask\<lparr> status := failed \<rparr>]. status t = failed}
   \<and> tasksToAudit True [sqlTask, safeTask\<lparr> status := failed \<rparr>]
     = [safeTask\<lparr> status := failed \<rparr>]
   \<and> tasksToAudit False [sqlTask, safeTask\<lparr> status := failed \<rparr>]
     = [sqlTask, safeTask\<lparr> status := failed \<rparr>]"
proof -
  have a: "set (tasksToAudit True [sqlTask, safeTask\<lparr> status := failed \<rparr>])
     = {t \<in> set [sqlTask, safeTask\<lparr> status := failed \<rparr>]. status t = failed}"
    using audit_input_by_mode [of "[sqlTask, safeTask\<lparr> status := failed \<rparr>]"]
    by (rule conjunct2)
  have b: "tasksToAudit True [sqlTask, safeTask\<lparr> status := failed \<rparr>]
     = [safeTask\<lparr> status := failed \<rparr>]"
    by (simp add: tasksToAudit_def sqlTask_def)
  have c: "tasksToAudit False [sqlTask, safeTask\<lparr> status := failed \<rparr>]
     = [sqlTask, safeTask\<lparr> status := failed \<rparr>]"
    by (simp add: tasksToAudit_def sqlTask_def)
  show ?thesis
    by (rule conjI [OF a conjI [OF b c]])
qed

text \<open>
  In endless mode a vulnerable task that was never reached is not handed to the audit,
  although the filter of the other mode keeps it.
\<close>

theorem endless_audit_filter_counterexample:
  "isVulnerable sqlTask \<and> status sqlTask \<noteq> completed
   \<and> tasksToAudit False [sqlTask] = [sqlTask]
   \<and> tasksToAudit True [sqlTask] = []"
  by (simp add: tasksToAudit_def sqlTask_def)

section \<open>The fallback findings\<close>

text \<open>
  C6, as the code has it. The fallback audit emits one finding per vulnerable task, in
  order, and none for the other tasks. The finding carries the task's id and
  vulnerability type; its severity, description and remediation are the table values
  for that type (severity: \<open>XSS\<close> HIGH, \<open>SQL_INJECTION\<close> CRITICAL, \<open>RCE\<close>
  CRITICAL, \<open>SSRF\<close> HIGH, \<open>PATH_TRAVERSAL\<close> HIGH, \<open>COMMAND_INJECTION\<close>
  CRITICAL, \<open>INSECURE_DESERIALIZATION\<close> HIGH, \<open>SAFE\<close> LOW); its line is the
  task's \<open>vulnerabilityLine\<close>, or \<open>1\<close> when that is absent or \<open>0\<close>; its
  column is \<open>1\<close>.
\<close>

theorem mock_findings_per_vulnerable_task:
  "length (findings (generateMockAudit ts)) = length (filter isVulnerable ts)
   \<and> (\<forall>i<length (filter isVulnerable ts).
        taskId (findings (generateMockAudit ts) ! i) = task_id (filter isVulnerable ts ! i)
        \<and> vulnerability (findings (generateMockAudit ts) ! i)
            = vulnerabilityType (filter isVulnerable ts ! i)
        \<and> severity (findings (generateMockAudit ts) ! i)
            = SEVERITY_MAP (vulnerabilityType (filter isVulnerable ts ! i))
        \<and> description (findings (generateMockAudit ts) ! i)
            = DESCRIPTIONS (vulnerabilityType (filter isVulnerable ts ! i))
        \<and> remediation (findings (generateMockAudit ts) ! i)
            = REMEDIATIONS (vulnerabilityType (filter isVulnerable ts ! i))
        \<and> line (codeLocation (findings (generateMockAudit ts) ! i))
            = (case vulnerabilityLine (filter isVulnerable ts ! i) of
                 None \<Rightarrow> 1
               | Some l \<Rightarrow> if l = 0 then 1 else l)
        \<and> column (codeLocation (findings (generateMockAudit ts) ! i)) = Some 1)
   \<and> SEVERITY_MAP XSS = sev_HIGH \<and> SEVERITY_MAP SQL_INJECTION = sev_CRITICAL
   \<and> SEVERITY_MAP RCE = sev_CRITICAL \<and> SEVERITY_MAP SSRF = sev_HIGH
   \<and> SEVERITY_MAP PATH_TRAVERSAL = sev_HIGH \<and> SEVERITY_MAP COMMAND_INJECTION = sev_CRITICAL
   \<and> SEVERITY_MAP INSECURE_DESERIALIZATION = sev_HIGH \<and> SEVERITY_MAP SAFE = sev_LOW"
  by (simp add: generateMockAudit_def Let_def mockFinding_def lineOrOne_def SEVERITY_MAP_def)

theorem mock_findings_per_vulnerable_task_witness:
  "(0::nat) < length (filter isVulnerable [safeTask, sqlTask])
   \<and> length (findings (generateMockAudit [safeTask, sqlTask])) = 1
   \<and> taskId (findings (generateMockAudit [safeTask, sqlTask]) ! 0) = ''task-1''
   \<and> severity (findings (generateMockAudit [safeTask, sqlTask]) ! 0) = sev_CRITICAL
   \<and> line (codeLocation (findings (generateMockAudit [safeTask, sqlTask]) ! 0)) = 1
   \<and> column (codeLocation (findings (generateMockAudit [safeTask, sqlTask]) ! 0)) = Some 1"
proof -
  have f: "filter isVulnerable [safeTask, sqlTask] = [sqlTask]"
    by (simp add: sqlTask_def safeTask_def)
  have pos: "(0::nat) < length (filter isVulnerable [safeTask, sqlTask])"
    unfolding f by simp
  note inst = mock_findings_per_vulnerable_task [of "[safeTask, sqlTask]", unfolded f]
  have len: "length (findings (generateMockAudit [safeTask, sqlTask])) = 1"
    using inst by simp
  have at0: "taskId (findings (generateMockAudit [safeTask, sqlTask]) ! 0) = task_id sqlTask
      \<and> severity (findings (generateMockAudit [safeTask, sqlTask]) ! 0)
          = SEVERITY_MAP (vulnerabilityType sqlTask)
      \<and> line (codeLocation (findings (generateMockAudit [safeTask, sqlTask]) ! 0))
          = (case vulnerabilityLine sqlTask of None \<Rightarrow> 1 | Some l \<Rightarrow> if l = 0 then 1 else l)
      \<and> column (codeLocation (findings (generateMockAudit [safeTask, sqlTask]) ! 0)) = Some 1"
    using inst by simp
  have vals: "task_id sqlTask = ''task-1''"
    "SEVERITY_MAP (vulnerabilityType sqlTask) = sev_CRITICAL"
    "(case vulnerabilityLine sqlTask of None \<Rightarrow> 1 | Some l \<Rightarrow> if l = 0 then 1 else l) = (1::int)"
    by (simp_all add: sqlTask_def SEVERITY_MAP_def)
  from pos len at0 show ?thesis
    unfolding vals by blast
qed

text \<open>
  A recorded line of \<open>0\<close> is present, yet the finding's line is \<open>1\<close>.
\<close>

theorem line_zero_counterexample:
  "isVulnerable lowTask \<and> vulnerabilityLine lowTask = Some 0
   \<and> line (codeLocation (hd (findings (generateMockAudit [lowTask])))) = 1"
  by (simp add: generateMockAudit_def Let_def mockFinding_def lineOrOne_def lowTask_def)

section \<open>Endless progression\<close>

lemma list_ex_map_index:
  "list_ex (\<lambda>b. b) (map_index f ts) \<longleftrightarrow> (\<exists>i<length ts. f i (ts ! i))"
  by (simp add: list_ex_length length_map_index nth_map_index cong: conj_cong)

lemma handleAnswer_endless_wrong:
  assumes "task_at (tasks s) (currentTaskIndex s) = Some t" and "\<not> isCorrect a t"
  shows "handleAnswer True stage s a =
        \<lparr> dispatched = [ANSWER_TASK a, GAME_OVER reason_wrong_answer],
          played = [siren], showEmergency = True,
          endlessStageAfter = stage, batchRequested = None \<rparr>"
  using assms by (simp add: handleAnswer_def)

lemma handleAnswer_endless_escalate:
  assumes "task_at (tasks s) (currentTaskIndex s) = Some t" and "isCorrect a t"
    and "currentTaskIndex s + 1 = length (tasks s)"
    and "\<forall>i<length (tasks s). i \<noteq> currentTaskIndex s \<longrightarrow> status (tasks s ! i) \<noteq> failed"
  shows "handleAnswer True stage s a =
        \<lparr> dispatched = [ANSWER_TASK a, START_LOADING],
          played = [success], showEmergency = False,
          endlessStageAfter = nextStage stage,
          batchRequested =
            Some (generateEndlessBatch (nextStage stage) (difficultyFactors s) (language s)) \<rparr>"
proof -
  have nf: "\<not> list_ex (\<lambda>b. b)
            (map_index (\<lambda>idx task. idx \<noteq> currentTaskIndex s \<and> status task = failed) (tasks s))"
    using assms(4) by (simp add: list_ex_map_index) blast
  have lastT: "int (currentTaskIndex s) \<ge> int (length (tasks s)) - 1"
    using assms(3) by linarith
  show ?thesis
    unfolding handleAnswer_def Let_def
    using assms(1,2) nf lastT by simp
qed

lemma game_over_after_any:
  "phase (dispatch_all s [a1, GAME_OVER r]) = AUDITING
   \<and> gameOverReason (dispatch_all s [a1, GAME_OVER r]) = Some r"
proof -
  have "dispatch_all s [a1, GAME_OVER r] = gameReducer (gameReducer s a1) (GAME_OVER r)"
    by (simp only: dispatch_all_def foldl.simps)
  then show ?thesis
    by simp
qed

text \<open>
  C8. In endless mode, with a current task: if the answer is correct, the task is the
  last of the batch and no other task of the batch is \<open>failed\<close>, the stage moves to
  its successor (\<open>EASY\<close> to \<open>MEDIUM\<close>, \<open>MEDIUM\<close> to \<open>HARD\<close>, \<open>HARD\<close>
  stays \<open>HARD\<close>) and a batch of 5 tasks is requested at that stage. If the answer is
  incorrect, the handler dispatches the answer and then \<open>GAME_OVER wrong_answer\<close>,
  which leaves the state in phase \<open>AUDITING\<close>, and requests no batch.
\<close>

theorem endless_escalation:
  assumes "task_at (tasks s) (currentTaskIndex s) = Some t"
  shows "(isCorrect a t \<and> currentTaskIndex s + 1 = length (tasks s)
          \<and> (\<forall>i<length (tasks s). i \<noteq> currentTaskIndex s \<longrightarrow> status (tasks s ! i) \<noteq> failed)
          \<longrightarrow> endlessStageAfter (handleAnswer True stage s a) = nextStage stage
            \<and> dispatched (handleAnswer True stage s a) = [ANSWER_TASK a, START_LOADING]
            \<and> batchRequested (handleAnswer True stage s a)
                = Some \<lparr> req_language = language s,
                         req_difficulty = nextStage stage,
                         req_complexityLevel =
                           complexityLevel
                             (calculateGameConfig r (nextStage stage) (difficultyFactors s)),
                         req_count = 5 \<rparr>)
       \<and> nextStage EASY = MEDIUM \<and> nextStage MEDIUM = HARD \<and> nextStage HARD = HARD
       \<and> (\<not> isCorrect a t
          \<longrightarrow> dispatched (handleAnswer True stage s a)
                = [ANSWER_TASK a, GAME_OVER reason_wrong_answer]
            \<and> phase (dispatch_all s (dispatched (handleAnswer True stage s a))) = AUDITING
            \<and> gameOverReason (dispatch_all s (dispatched (handleAnswer True stage s a)))
                = Some reason_wrong_answer
            \<and> batchRequested (handleAnswer True stage s a) = None
            \<and> endlessStageAfter (handleAnswer True stage s a) = stage)"
proof -
  have stages: "nextStage EASY = MEDIUM \<and> nextStage MEDIUM = HARD \<and> nextStage HARD = HARD"
    by (simp add: nextStage_def)
  have req: "generateEndlessBatch (nextStage stage) (difficultyFactors s) (language s)
      = \<lparr> req_language = language s,
          req_difficulty = nextStage stage,
          req_complexityLevel =
            complexityLevel (calculateGameConfig r (nextStage stage) (difficultyFactors s)),
          req_count = 5 \<rparr>"
    by (simp add: generateEndlessBatch_def Let_def complexityLevel_rnd [of r])
  have up: "endlessStageAfter (handleAnswer True stage s a) = nextStage stage
            \<and> dispatched (handleAnswer True stage s a) = [ANSWER_TASK a, START_LOADING]
            \<and> batchRequested (handleAnswer True stage s a)
                = Some \<lparr> req_language = language s,
                         req_difficulty = nextStage stage,
                         req_complexityLevel =
                           complexityLevel
                             (calculateGameConfig r (nextStage stage) (difficultyFactors s)),
                         req_count = 5 \<rparr>"
    if "isCorrect a t" "currentTaskIndex s + 1 = length (tasks s)"
       "\<forall>i<length (tasks s). i \<noteq> currentTaskIndex s \<longrightarrow> status (tasks s ! i) \<noteq> failed"
    by (simp add: handleAnswer_endless_escalate [OF assms that] req)
  have down: "dispatched (handleAnswer True stage s a)
                = [ANSWER_TASK a, GAME_OVER reason_wrong_answer]
            \<and> phase (dispatch_all s (dispatched (handleAnswer True stage s a))) = AUDITING
            \<and> gameOverReason (dispatch_all s (dispatched (handleAnswer True stage s a)))
                = Some reason_wrong_answer
            \<and> batchRequested (handleAnswer True stage s a) = None
            \<and> endlessStageAfter (handleAnswer True stage s a) = stage"
    if "\<not> isCorrect a t"
    by (simp add: handleAnswer_endless_wrong [OF assms that] game_over_after_any)
  from stages up down show ?thesis by blast
qed

theorem endless_escalation_witness:
  "task_at (tasks (playingState [sqlTask, safeTask] 1))
      (currentTaskIndex (playingState [sqlTask, safeTask] 1)) = Some safeTask
   \<and> isCorrect safe safeTask
   \<and> \<not> isCorrect vulnerable safeTask
   \<and> endlessStageAfter (handleAnswer True MEDIUM (playingState [sqlTask, safeTask] 1) safe) = HARD
   \<and> endlessStageAfter (handleAnswer True HARD (playingState [sqlTask, safeTask] 1) safe) = HARD
   \<and> batchRequested (handleAnswer True MEDIUM (playingState [sqlTask, safeTask] 1) safe)
       = Some \<lparr> req_language = javascript, req_difficulty = HARD,
                req_complexityLevel = advanced, req_count = 5 \<rparr>
   \<and> phase (dispatch_all (playingState [sqlTask, safeTask] 1)
        (dispatched (handleAnswer True MEDIUM (playingState [sqlTask, safeTask] 1) vulnerable)))
       = AUDITING"
proof -
  let ?s = "playingState [sqlTask, safeTask] 1"
  have at: "task_at (tasks ?s) (currentTaskIndex ?s) = Some safeTask"
    by (simp add: playingState_def initialState_def task_at_def)
  have ok: "isCorrect safe safeTask" and bad: "\<not> isCorrect vulnerable safeTask"
    by (simp_all add: isCorrect_def safeTask_def)
  have lastT: "currentTaskIndex ?s + 1 = length (tasks ?s)"
    by (simp add: playingState_def initialState_def)
  have nofail: "\<forall>i<length (tasks ?s). i \<noteq> currentTaskIndex ?s \<longrightarrow> status (tasks ?s ! i) \<noteq> failed"
    by (simp add: playingState_def initialState_def sqlTask_def less_Suc_eq)
  have cfg: "complexityLevel (calculateGameConfig 0 HARD (difficultyFactors ?s)) = advanced"
    "language ?s = javascript"
    by (simp_all add: playingState_def initialState_def calculateGameConfig_def)
  have st: "nextStage MEDIUM = HARD" "nextStage HARD = HARD"
    by (simp_all add: nextStage_def)
  from endless_escalation [OF at, of safe MEDIUM 0] ok lastT nofail
  have m: "endlessStageAfter (handleAnswer True MEDIUM ?s safe) = HARD
     \<and> batchRequested (handleAnswer True MEDIUM ?s safe)
       = Some \<lparr> req_language = javascript, req_difficulty = HARD,
                req_complexityLevel = advanced, req_count = 5 \<rparr>"
    by (simp only: st cfg simp_thms)
  from endless_escalation [OF at, of safe HARD 0] ok lastT nofail
  have h: "endlessStageAfter (handleAnswer True HARD ?s safe) = HARD"
    by (simp only: st cfg simp_thms)
  from endless_escalation [OF at, of vulnerable MEDIUM 0] bad
  have w: "phase (dispatch_all ?s (dispatched (handleAnswer True MEDIUM ?s vulnerable))) = AUDITING"
    by blast
  from at ok bad m h w show ?thesis by blast
qed

end
